theory Spec2Isabelle
  imports Main
begin

section \<open>Strings of the host language\<close>

text \<open>
  Strings are modelled as \<^typ>\<open>string\<close>, one \<^typ>\<open>char\<close> per code unit, which
  covers the strings whose code units are below 256. The helpers below follow the
  built-in string and array methods that \<^verbatim>\<open>src/index.ts\<close> calls, restricted to the
  argument shapes used there (one-character separators, literal patterns, replacement
  strings without \<^verbatim>\<open>$\<close> patterns).
\<close>

definition is_digit :: "char \<Rightarrow> bool" where
  "is_digit c = (c \<in> set ''0123456789'')"

definition is_alnum :: "char \<Rightarrow> bool" where
  "is_alnum c =
     (c \<in> set ''abcdefghijklmnopqrstuvwxyzABCDEFGHIJKLMNOPQRSTUVWXYZ0123456789'')"

text \<open>White space removed by \<^verbatim>\<open>String.prototype.trim\<close>, among the code units below
  256: TAB, LF, VT, FF, CR, SPACE and NBSP.\<close>

definition is_space :: "char \<Rightarrow> bool" where
  "is_space c = (of_char c \<in> {9, 10, 11, 12, 13, 32, 160::nat})"

definition trim :: "string \<Rightarrow> string" where
  "trim s = rev (dropWhile is_space (rev (dropWhile is_space s)))"

text \<open>\<^verbatim>\<open>s.split(sep)\<close> for a one-character separator: never an empty array.\<close>

fun split :: "char \<Rightarrow> string \<Rightarrow> string list" where
  "split sep [] = [[]]"
| "split sep (c # cs) =
     (if c = sep then [] # split sep cs
      else (case split sep cs of
              [] \<Rightarrow> [[c]]
            | x # xs \<Rightarrow> (c # x) # xs))"

text \<open>\<^verbatim>\<open>xs.join(sep)\<close>.\<close>

fun join :: "string \<Rightarrow> string list \<Rightarrow> string" where
  "join sep [] = []"
| "join sep [x] = x"
| "join sep (x # y # ys) = x @ sep @ join sep (y # ys)"

text \<open>\<^verbatim>\<open>xs.slice(start, end)\<close>: a negative index counts from the end, and both
  indices are clamped to the array.\<close>

definition slice :: "int \<Rightarrow> int \<Rightarrow> 'a list \<Rightarrow> 'a list" where
  "slice start end xs =
     (let len = int (length xs);
          k = (if start < 0 then max (len + start) 0 else min start len);
          final = (if end < 0 then max (len + end) 0 else min end len)
      in take (nat (final - k)) (drop (nat k) xs))"

text \<open>\<^verbatim>\<open>s.replace(pat, rep)\<close> for a string pattern: only the first occurrence is
  replaced.\<close>

fun replace :: "string \<Rightarrow> string \<Rightarrow> string \<Rightarrow> string" where
  "replace pat rep [] = (if pat = [] then rep else [])"
| "replace pat rep (c # cs) =
     (if take (length pat) (c # cs) = pat then rep @ drop (length pat) (c # cs)
      else c # replace pat rep cs)"

text \<open>
  The regular expression \<^verbatim>\<open>/www[a-zA-Z0-9]*\./\<close> tried at the start of a string:
  the literal \<^verbatim>\<open>www\<close>, the longest run of letters and digits, then a dot. A shorter run
  is followed by a letter or digit, not by a dot, so backtracking finds nothing more.
  The result is what follows the match.
\<close>

definition www_match :: "string \<Rightarrow> string option" where
  "www_match s =
     (if take 3 s = ''www'' then
        (case dropWhile is_alnum (drop 3 s) of
           [] \<Rightarrow> None
         | c # r \<Rightarrow> if c = CHR ''.'' then Some r else None)
      else None)"

text \<open>\<^verbatim>\<open>s.replace(/www[a-zA-Z0-9]*\./, '')\<close>: the leftmost match is removed; the
  expression has no \<^verbatim>\<open>g\<close> flag.\<close>

fun replace_www :: "string \<Rightarrow> string" where
  "replace_www [] = []"
| "replace_www (c # cs) =
     (case www_match (c # cs) of
        Some r \<Rightarrow> r
      | None \<Rightarrow> c # replace_www cs)"

section \<open>Provider name\<close>

definition getProvider :: "string \<Rightarrow> string" where
  "getProvider host =
     join '' '' (slice 0 (- 1) (split CHR ''.'' (replace ''.co.'' ''.'' (replace_www host))))"

section \<open>The rule engine\<close>

text \<open>
  A thrown exception is a value: \<open>TypeError\<close> is what the \<^verbatim>\<open>URL\<close> constructor throws
  on an invalid URL and what calling a string method on an array throws;
  \<open>SyntaxError\<close> is what \<^verbatim>\<open>querySelectorAll\<close> throws on a malformed selector.
\<close>

datatype error = TypeError | SyntaxError

text \<open>The selected value: a string, or the array that a processor made of it.\<close>

datatype metadata_value = Scalar string | List "string list"

record Context =
  url :: string

text \<open>
  The document is its query function, \<^verbatim>\<open>doc.querySelectorAll(query)\<close>: the matching
  elements in document order. Elements are a type parameter of the engine.
\<close>

type_synonym 'e Document = "string \<Rightarrow> error + 'e list"

text \<open>
  A rule set. A handler returns a string or \<^verbatim>\<open>null\<close> (\<open>None\<close>); a scorer returns a
  number or \<^verbatim>\<open>undefined\<close> (\<open>None\<close>); the optional members are \<open>None\<close> when the
  object does not have them. Scores are integers.
\<close>

record 'e ruleSet =
  rules :: "(string \<times> ('e \<Rightarrow> string option)) list"
  scorers :: "('e \<Rightarrow> int \<Rightarrow> int option) list option"
  defaultValue :: "(Context \<Rightarrow> error + string) option"
  processors :: "(metadata_value \<Rightarrow> Context \<Rightarrow> error + metadata_value) list option"

text \<open>\<^verbatim>\<open>if (newScore)\<close>: \<^verbatim>\<open>undefined\<close> and \<open>0\<close> are both falsy.\<close>

fun scorer_loop :: "('e \<Rightarrow> int \<Rightarrow> int option) list \<Rightarrow> 'e \<Rightarrow> int \<Rightarrow> int" where
  "scorer_loop [] element score = score"
| "scorer_loop (scorer # rest) element score =
     scorer_loop rest element
       (case scorer element score of
          None \<Rightarrow> score
        | Some newScore \<Rightarrow> if newScore \<noteq> 0 then newScore else score)"

text \<open>Line 34: the score before the scorers run.\<close>

definition base_score :: "'e ruleSet \<Rightarrow> nat \<Rightarrow> int" where
  "base_score ruleSet currRule = int (length (rules ruleSet)) - int currRule"

text \<open>Lines 34 to 44: the score of an element matched by the rule at index \<open>currRule\<close>.\<close>

definition element_score :: "'e ruleSet \<Rightarrow> nat \<Rightarrow> 'e \<Rightarrow> int" where
  "element_score ruleSet currRule element =
     (let score = base_score ruleSet currRule
      in case scorers ruleSet of
           None \<Rightarrow> score
         | Some ss \<Rightarrow> scorer_loop ss element score)"

text \<open>Lines 33 to 50: the state is \<open>(maxScore, maxValue)\<close>.\<close>

fun element_loop ::
  "'e ruleSet \<Rightarrow> nat \<Rightarrow> ('e \<Rightarrow> string option) \<Rightarrow> 'e list
     \<Rightarrow> int \<times> string option \<Rightarrow> int \<times> string option" where
  "element_loop ruleSet currRule handler [] st = st"
| "element_loop ruleSet currRule handler (element # rest) (maxScore, maxValue) =
     (let score = element_score ruleSet currRule element
      in element_loop ruleSet currRule handler rest
           (if score > maxScore then (score, handler element) else (maxScore, maxValue)))"

text \<open>Lines 27 to 52.\<close>

function rule_loop ::
  "'e ruleSet \<Rightarrow> 'e Document \<Rightarrow> nat \<Rightarrow> int \<times> string option
     \<Rightarrow> error + (int \<times> string option)" where
  "rule_loop ruleSet doc currRule st =
     (if currRule < length (rules ruleSet) then
        (case rules ruleSet ! currRule of
           (query, handler) \<Rightarrow>
             (case doc query of
                Inl err \<Rightarrow> Inl err
              | Inr elements \<Rightarrow>
                  rule_loop ruleSet doc (Suc currRule)
                    (if elements \<noteq> [] then element_loop ruleSet currRule handler elements st
                     else st)))
      else Inr st)"
  by pat_completeness auto
termination
  by (relation "measure (\<lambda>(ruleSet, doc, currRule, st). length (rules ruleSet) - currRule)") auto

declare rule_loop.simps [simp del]

text \<open>Lines 59 to 63.\<close>

fun processor_loop ::
  "(metadata_value \<Rightarrow> Context \<Rightarrow> error + metadata_value) list \<Rightarrow> Context
     \<Rightarrow> metadata_value \<Rightarrow> error + metadata_value" where
  "processor_loop [] context maxValue = Inr maxValue"
| "processor_loop (processor # rest) context maxValue =
     (case processor maxValue context of
        Inl err \<Rightarrow> Inl err
      | Inr v \<Rightarrow> processor_loop rest context v)"

text \<open>Truthiness of \<open>maxValue\<close> before the processors run: \<^verbatim>\<open>undefined\<close>,
  \<^verbatim>\<open>null\<close> and the empty string are falsy.\<close>

definition truthy :: "string option \<Rightarrow> bool" where
  "truthy v = (case v of None \<Rightarrow> False | Some s \<Rightarrow> s \<noteq> [])"

text \<open>The evaluator that \<^verbatim>\<open>buildRuleSet(ruleSet)\<close> returns, applied to a document
  and a context. \<open>Inr None\<close> is the result \<^verbatim>\<open>undefined\<close>.\<close>

definition buildRuleSet ::
  "'e ruleSet \<Rightarrow> 'e Document \<Rightarrow> Context \<Rightarrow> error + metadata_value option" where
  "buildRuleSet ruleSet doc context =
     (case rule_loop ruleSet doc 0 (0, None) of
        Inl err \<Rightarrow> Inl err
      | Inr (maxScore, maxValue) \<Rightarrow>
          (case (case defaultValue ruleSet of
                   None \<Rightarrow> Inr maxValue
                 | Some dv \<Rightarrow>
                     if \<not> truthy maxValue then
                       (case dv context of Inl err \<Rightarrow> Inl err | Inr d \<Rightarrow> Inr (Some d))
                     else Inr maxValue) of
             Inl err \<Rightarrow> Inl err
           | Inr maxValue1 \<Rightarrow>
               (case maxValue1 of
                  None \<Rightarrow> Inr None
                | Some s \<Rightarrow>
                    if s = [] then Inr None
                    else
                      (case (case processors ruleSet of
                               None \<Rightarrow> Inr (Scalar s)
                             | Some ps \<Rightarrow> processor_loop ps context (Scalar s)) of
                         Inl err \<Rightarrow> Inl err
                       | Inr (Scalar t) \<Rightarrow> Inr (Some (Scalar (trim t)))
                       | Inr (List xs) \<Rightarrow> Inr (Some (List xs))))))"

text \<open>
  The candidates in the order the nested iteration meets them, each with its final score and
  the handler's result, and the update of line 46 on one candidate.
\<close>

definition matched :: "'e Document \<Rightarrow> string \<Rightarrow> 'e list" where
  "matched doc query = (case doc query of Inl err \<Rightarrow> [] | Inr elements \<Rightarrow> elements)"

definition candidates_from ::
  "'e ruleSet \<Rightarrow> 'e Document \<Rightarrow> nat \<Rightarrow> (int \<times> string option) list" where
  "candidates_from ruleSet doc currRule =
     concat (map (\<lambda>i. map (\<lambda>element. (element_score ruleSet i element,
                                        snd (rules ruleSet ! i) element))
                          (matched doc (fst (rules ruleSet ! i))))
                 [currRule ..< length (rules ruleSet)])"

definition candidates :: "'e ruleSet \<Rightarrow> 'e Document \<Rightarrow> (int \<times> string option) list" where
  "candidates ruleSet doc = candidates_from ruleSet doc 0"

definition offer :: "int \<times> string option \<Rightarrow> int \<times> string option \<Rightarrow> int \<times> string option" where
  "offer st c = (if fst c > fst st then c else st)"

definition queries_ok :: "'e ruleSet \<Rightarrow> 'e Document \<Rightarrow> bool" where
  "queries_ok ruleSet doc =
     list_all (\<lambda>r. case doc (fst r) of Inl err \<Rightarrow> False | Inr elements \<Rightarrow> True) (rules ruleSet)"

section \<open>Elements and the URL constructor\<close>

text \<open>
  An element is what the handlers and the icon scorer read of it: its attributes, and
  the \<^verbatim>\<open>text\<close> property, which only a \<^verbatim>\<open>title\<close> element has.
\<close>

record Element =
  attributes :: "(string \<times> string) list"
  title_text :: "string option"

definition getAttribute :: "Element \<Rightarrow> string \<Rightarrow> string option" where
  "getAttribute element name = map_of (attributes element) name"

text \<open>
  The \<^verbatim>\<open>URL\<close> constructor belongs to the platform, so it is a parameter:
  \<open>new_URL_href U relative base\<close> is \<^verbatim>\<open>new URL(relative, base).href\<close> and
  \<open>new_URL_host U u\<close> is \<^verbatim>\<open>new URL(u).host\<close>, each \<open>None\<close> where the constructor
  throws.
\<close>

record URL_api =
  new_URL_href :: "string \<Rightarrow> string \<Rightarrow> string option"
  new_URL_host :: "string \<Rightarrow> string option"

definition makeUrlAbsolute :: "URL_api \<Rightarrow> string \<Rightarrow> string \<Rightarrow> error + string" where
  "makeUrlAbsolute U base relative =
     (case new_URL_href U relative base of None \<Rightarrow> Inl TypeError | Some h \<Rightarrow> Inr h)"

definition parseUrl :: "URL_api \<Rightarrow> string \<Rightarrow> error + string" where
  "parseUrl U u = (case new_URL_host U u of None \<Rightarrow> Inl TypeError | Some h \<Rightarrow> Inr h)"

section \<open>The built-in rule sets\<close>

text \<open>\<^verbatim>\<open>sizes.match(/\d+/g)\<close>: the maximal runs of digits from left to right, \<open>[]\<close>
  for \<^verbatim>\<open>null\<close>. The first argument is the run being read.\<close>

fun digit_runs :: "string \<Rightarrow> string \<Rightarrow> string list" where
  "digit_runs run [] = (if run = [] then [] else [run])"
| "digit_runs run (c # cs) =
     (if is_digit c then digit_runs (run @ [c]) cs
      else if run = [] then digit_runs [] cs
      else run # digit_runs [] cs)"

text \<open>\<^verbatim>\<open>Number(ds)\<close> on a string of digits, as the exact integer (the value of the
  source up to \<open>2 ^ 53\<close>).\<close>

definition Number :: "string \<Rightarrow> int" where
  "Number ds = foldl (\<lambda>n c. 10 * n + (int (of_char c) - 48)) 0 ds"

text \<open>Lines 105 to 114.\<close>

definition icon_scorer :: "Element \<Rightarrow> int \<Rightarrow> int option" where
  "icon_scorer element score =
     (case getAttribute element ''sizes'' of
        None \<Rightarrow> None
      | Some sizes \<Rightarrow>
          if sizes = [] then None
          else (case digit_runs [] sizes of
                  [] \<Rightarrow> None
                | m # ms \<Rightarrow> Some (Number m)))"

text \<open>Lines 118, 132 and 179: the URL constructor turns an array argument into a
  string by joining it with commas.\<close>

definition absolute_processor ::
  "URL_api \<Rightarrow> metadata_value \<Rightarrow> Context \<Rightarrow> error + metadata_value" where
  "absolute_processor U v context =
     (case makeUrlAbsolute U (url context)
             (case v of Scalar s \<Rightarrow> s | List xs \<Rightarrow> join '','' xs) of
        Inl err \<Rightarrow> Inl err
      | Inr h \<Rightarrow> Inr (Scalar h))"

text \<open>Line 141. An array has no \<^verbatim>\<open>split\<close> method.\<close>

definition keywords_processor :: "metadata_value \<Rightarrow> Context \<Rightarrow> error + metadata_value" where
  "keywords_processor v context =
     (case v of
        Scalar keywords \<Rightarrow> Inr (List (map trim (split CHR '','' keywords)))
      | List xs \<Rightarrow> Inl TypeError)"

text \<open>Line 161. The array of \<^verbatim>\<open>split\<close> is never empty (\<open>split_not_Nil\<close> below), so
  its element 0 exists and the first case is never taken.\<close>

definition language_processor :: "metadata_value \<Rightarrow> Context \<Rightarrow> error + metadata_value" where
  "language_processor v context =
     (case v of
        Scalar language \<Rightarrow>
          (case split CHR ''-'' language of
             [] \<Rightarrow> Inl TypeError
           | x # xs \<Rightarrow> Inr (Scalar x))
      | List xs \<Rightarrow> Inl TypeError)"

definition description_ruleSet :: "Element ruleSet" where
  \<open>description_ruleSet =
     \<lparr>rules =
        [(''meta[property="og:description"]'', \<lambda>element. getAttribute element ''content''),
         (''meta[name="description" i]'', \<lambda>element. getAttribute element ''content'')],
      scorers = None, defaultValue = None, processors = None\<rparr>\<close>

definition icon_ruleSet :: "URL_api \<Rightarrow> Element ruleSet" where
  \<open>icon_ruleSet U =
     \<lparr>rules =
        [(''link[rel="apple-touch-icon"]'', \<lambda>element. getAttribute element ''href''),
         (''link[rel="apple-touch-icon-precomposed"]'', \<lambda>element. getAttribute element ''href''),
         (''link[rel="icon" i]'', \<lambda>element. getAttribute element ''href''),
         (''link[rel="fluid-icon"]'', \<lambda>element. getAttribute element ''href''),
         (''link[rel="shortcut icon"]'', \<lambda>element. getAttribute element ''href''),
         (''link[rel="Shortcut Icon"]'', \<lambda>element. getAttribute element ''href''),
         (''link[rel="mask-icon"]'', \<lambda>element. getAttribute element ''href'')],
      scorers = Some [icon_scorer],
      defaultValue = Some (\<lambda>context. Inr ''favicon.ico''),
      processors = Some [absolute_processor U]\<rparr>\<close>

definition image_ruleSet :: "URL_api \<Rightarrow> Element ruleSet" where
  \<open>image_ruleSet U =
     \<lparr>rules =
        [(''meta[property="og:image:secure_url"]'', \<lambda>element. getAttribute element ''content''),
         (''meta[property="og:image:url"]'', \<lambda>element. getAttribute element ''content''),
         (''meta[property="og:image"]'', \<lambda>element. getAttribute element ''content''),
         (''meta[name="twitter:image"]'', \<lambda>element. getAttribute element ''content''),
         (''meta[property="twitter:image"]'', \<lambda>element. getAttribute element ''content''),
         (''meta[name="thumbnail"]'', \<lambda>element. getAttribute element ''content'')],
      scorers = None, defaultValue = None,
      processors = Some [absolute_processor U]\<rparr>\<close>

definition keywords_ruleSet :: "Element ruleSet" where
  \<open>keywords_ruleSet =
     \<lparr>rules =
        [(''meta[name="keywords" i]'', \<lambda>element. getAttribute element ''content'')],
      scorers = None, defaultValue = None,
      processors = Some [keywords_processor]\<rparr>\<close>

definition title_ruleSet :: "Element ruleSet" where
  \<open>title_ruleSet =
     \<lparr>rules =
        [(''meta[property="og:title"]'', \<lambda>element. getAttribute element ''content''),
         (''meta[name="twitter:title"]'', \<lambda>element. getAttribute element ''content''),
         (''meta[property="twitter:title"]'', \<lambda>element. getAttribute element ''content''),
         (''meta[name="hdl"]'', \<lambda>element. getAttribute element ''content''),
         (''title'', \<lambda>element. title_text element)],
      scorers = None, defaultValue = None, processors = None\<rparr>\<close>

definition language_ruleSet :: "Element ruleSet" where
  \<open>language_ruleSet =
     \<lparr>rules =
        [(''html[lang]'', \<lambda>element. getAttribute element ''lang''),
         (''meta[name="language" i]'', \<lambda>element. getAttribute element ''content'')],
      scorers = None, defaultValue = None,
      processors = Some [language_processor]\<rparr>\<close>

definition type_ruleSet :: "Element ruleSet" where
  \<open>type_ruleSet =
     \<lparr>rules =
        [(''meta[property="og:type"]'', \<lambda>element. getAttribute element ''content'')],
      scorers = None, defaultValue = None, processors = None\<rparr>\<close>

definition url_ruleSet :: "URL_api \<Rightarrow> Element ruleSet" where
  \<open>url_ruleSet U =
     \<lparr>rules =
        [(''a.amp-canurl'', \<lambda>element. getAttribute element ''href''),
         (''link[rel="canonical"]'', \<lambda>element. getAttribute element ''href''),
         (''meta[property="og:url"]'', \<lambda>element. getAttribute element ''content'')],
      scorers = None,
      defaultValue = Some (\<lambda>context. Inr (url context)),
      processors = Some [absolute_processor U]\<rparr>\<close>

definition provider_ruleSet :: "URL_api \<Rightarrow> Element ruleSet" where
  \<open>provider_ruleSet U =
     \<lparr>rules =
        [(''meta[property="og:site_name"]'', \<lambda>element. getAttribute element ''content'')],
      scorers = None,
      defaultValue = Some (\<lambda>context.
        case parseUrl U (url context) of
          Inl err \<Rightarrow> Inl err
        | Inr h \<Rightarrow> Inr (getProvider h)),
      processors = None\<rparr>\<close>

text \<open>Lines 83 to 189: the table, in the order of its keys.\<close>

definition metadataRuleSets :: "URL_api \<Rightarrow> (string \<times> Element ruleSet) list" where
  "metadataRuleSets U =
     [(''description'', description_ruleSet),
      (''icon'', icon_ruleSet U),
      (''image'', image_ruleSet U),
      (''keywords'', keywords_ruleSet),
      (''title'', title_ruleSet),
      (''language'', language_ruleSet),
      (''type'', type_ruleSet),
      (''url'', url_ruleSet U),
      (''provider'', provider_ruleSet U)]"

section \<open>Example documents\<close>

text \<open>
  The results of the platform's URL constructor on the arguments that the examples
  below pass to it, as a table: \<^verbatim>\<open>https://a.com/x/y\<close> is in serialised form and comes
  back as it is, \<^verbatim>\<open>https://a.com\<close> comes back with the path \<^verbatim>\<open>/\<close>. No statement
  below evaluates the table on other arguments.
\<close>

definition example_URL :: URL_api where
  "example_URL =
     \<lparr>new_URL_href = (\<lambda>relative base.
        if relative = ''https://a.com/x/y'' \<and> base = ''https://a.com/x/y''
          then Some ''https://a.com/x/y''
        else if relative = ''https://a.com'' \<and> base = ''https://a.com''
          then Some ''https://a.com/''
        else None),
      new_URL_host = (\<lambda>u.
        if u = ''https://a.com/x/y'' \<or> u = ''https://a.com'' then Some ''a.com''
        else None)\<rparr>"


text \<open>A scorer that returns 0 for every element.\<close>

definition zero_scorer :: "Element \<Rightarrow> int \<Rightarrow> int option" where
  "zero_scorer element score = Some 0"

definition meta_og_empty :: Element where
  "meta_og_empty = \<lparr>attributes = [(''property'', ''og:description'')], title_text = None\<rparr>"

definition meta_description :: Element where
  "meta_description =
     \<lparr>attributes = [(''name'', ''description''), (''content'', ''Hello'')], title_text = None\<rparr>"

text \<open>An \<^verbatim>\<open>og:description\<close> element without \<^verbatim>\<open>content\<close> and a \<^verbatim>\<open>description\<close>
  element with one.\<close>

definition description_doc :: "Element Document" where
  \<open>description_doc query =
     (if query = ''meta[property="og:description"]'' then Inr [meta_og_empty]
      else if query = ''meta[name="description" i]'' then Inr [meta_description]
      else Inr [])\<close>

definition og_title_1 :: Element where
  "og_title_1 = \<lparr>attributes = [(''property'', ''og:title''), (''content'', ''Foo'')], title_text = None\<rparr>"

definition og_title_2 :: Element where
  "og_title_2 = \<lparr>attributes = [(''property'', ''og:title''), (''content'', ''Baz'')], title_text = None\<rparr>"

definition title_element :: Element where
  "title_element = \<lparr>attributes = [], title_text = Some ''Bar''\<rparr>"

text \<open>Two \<^verbatim>\<open>og:title\<close> elements and a \<^verbatim>\<open>title\<close> element.\<close>

definition title_doc :: "Element Document" where
  \<open>title_doc query =
     (if query = ''meta[property="og:title"]'' then Inr [og_title_1, og_title_2]
      else if query = ''title'' then Inr [title_element]
      else Inr [])\<close>

text \<open>A \<^verbatim>\<open>title\<close> element and nothing else that the title rules match.\<close>

definition title_only_doc :: "Element Document" where
  "title_only_doc query = (if query = ''title'' then Inr [title_element] else Inr [])"

definition icon_16 :: Element where
  "icon_16 =
     \<lparr>attributes = [(''rel'', ''icon''), (''href'', ''small.png''), (''sizes'', ''16x16'')],
      title_text = None\<rparr>"

definition icon_32 :: Element where
  "icon_32 =
     \<lparr>attributes = [(''rel'', ''icon''), (''href'', ''large.png''), (''sizes'', ''32x32'')],
      title_text = None\<rparr>"

definition icon_doc :: "Element Document" where
  \<open>icon_doc query =
     (if query = ''link[rel="icon" i]'' then Inr [icon_32, icon_16] else Inr [])\<close>

section \<open>Properties of the provider name\<close>

lemma replace_www_no_dot: "CHR ''.'' \<notin> set s \<Longrightarrow> replace_www s = s"
proof (induction s)
  case Nil
  show ?case by simp
next
  case (Cons c cs)
  have "CHR ''.'' \<notin> set (dropWhile is_alnum (drop 3 (c # cs)))"
    using Cons.prems set_dropWhileD in_set_dropD by fast
  then have "www_match (c # cs) = None"
    by (auto simp: www_match_def split: list.splits)
  with Cons show ?case by simp
qed

lemma replace_co_no_dot: "CHR ''.'' \<notin> set s \<Longrightarrow> replace ''.co.'' ''.'' s = s"
proof (induction s)
  case Nil
  show ?case by simp
next
  case (Cons c cs)
  from Cons.prems have "c \<noteq> CHR ''.''" and "CHR ''.'' \<notin> set cs"
    by auto
  then show ?case
    using Cons.IH by simp
qed

lemma split_no_sep: "sep \<notin> set s \<Longrightarrow> split sep s = [s]"
  by (induction s) auto

text \<open>
  C7. The provider name of the host \<^verbatim>\<open>www.example.co.uk\<close> is \<^verbatim>\<open>example\<close>, and the
  provider name of \<^verbatim>\<open>blog.example.com\<close> is \<^verbatim>\<open>blog example\<close>.
\<close>

theorem getProvider_examples:
  "getProvider ''www.example.co.uk'' = ''example''
   \<and> getProvider ''blog.example.com'' = ''blog example''"
  by (simp add: getProvider_def www_match_def is_alnum_def slice_def)

text \<open>
  C10. A host without any dot has the empty provider name: the split gives the host as
  its single label, and the last label is dropped.
\<close>

theorem getProvider_no_dot:
  "CHR ''.'' \<notin> set host \<Longrightarrow> getProvider host = ''''"
  by (simp add: getProvider_def replace_www_no_dot replace_co_no_dot split_no_sep slice_def)

theorem getProvider_no_dot_witness:
  "CHR ''.'' \<notin> set ''localhost'' \<and> getProvider ''localhost'' = ''''"
  using getProvider_no_dot [of "''localhost''"] by simp

section \<open>The iteration as one pass over the candidates\<close>

lemma split_not_Nil: "split sep s \<noteq> []"
  by (induction s) (auto split: list.splits)

lemma split_head: "\<exists>xs. split sep s = takeWhile (\<lambda>c. c \<noteq> sep) s # xs"
  by (induction s) auto

lemma element_loop_foldl:
  "element_loop ruleSet currRule handler elements st =
     foldl offer st
       (map (\<lambda>element. (element_score ruleSet currRule element, handler element)) elements)"
proof (induction elements arbitrary: st)
  case Nil
  show ?case by simp
next
  case (Cons element rest)
  obtain maxScore maxValue where st: "st = (maxScore, maxValue)"
    by (cases st)
  show ?case
    unfolding st by (simp add: Cons.IH offer_def Let_def)
qed

lemma candidates_from_step:
  "currRule < length (rules ruleSet) \<Longrightarrow>
   candidates_from ruleSet doc currRule =
     map (\<lambda>element. (element_score ruleSet currRule element,
                      snd (rules ruleSet ! currRule) element))
         (matched doc (fst (rules ruleSet ! currRule)))
     @ candidates_from ruleSet doc (Suc currRule)"
  by (simp add: candidates_from_def upt_conv_Cons)

lemma candidates_from_end:
  "\<not> currRule < length (rules ruleSet) \<Longrightarrow> candidates_from ruleSet doc currRule = []"
  by (simp add: candidates_from_def)

lemma queries_ok_nth:
  assumes "queries_ok ruleSet doc" and "currRule < length (rules ruleSet)"
  shows "\<exists>elements. doc (fst (rules ruleSet ! currRule)) = Inr elements"
proof -
  from assms
  have "case doc (fst (rules ruleSet ! currRule)) of Inl err \<Rightarrow> False | Inr elements \<Rightarrow> True"
    by (simp add: queries_ok_def list_all_length)
  then show ?thesis
    by (cases "doc (fst (rules ruleSet ! currRule))") simp_all
qed

lemma rule_loop_candidates:
  "queries_ok ruleSet doc \<Longrightarrow>
   rule_loop ruleSet doc currRule st =
     Inr (foldl offer st (candidates_from ruleSet doc currRule))"
proof (induction ruleSet doc currRule st rule: rule_loop.induct)
  case (1 ruleSet doc currRule st)
  show ?case
  proof (cases "currRule < length (rules ruleSet)")
    case False
    then show ?thesis
      by (simp add: rule_loop.simps [of ruleSet doc currRule st] candidates_from_end)
  next
    case True
    obtain query handler where r: "rules ruleSet ! currRule = (query, handler)"
      by (cases "rules ruleSet ! currRule")
    from queries_ok_nth [OF "1.prems" True] r
    obtain elements where d: "doc query = Inr elements"
      by auto
    have m: "matched doc query = elements"
      by (simp add: matched_def d)
    let ?st = "element_loop ruleSet currRule handler elements st"
    have "rule_loop ruleSet doc currRule st =
            rule_loop ruleSet doc (Suc currRule) (if elements \<noteq> [] then ?st else st)"
      by (simp add: rule_loop.simps [of ruleSet doc currRule st] True r d)
    also have "(if elements \<noteq> [] then ?st else st) = ?st"
      by simp
    also have "rule_loop ruleSet doc (Suc currRule) ?st =
                 Inr (foldl offer ?st (candidates_from ruleSet doc (Suc currRule)))"
      using "1.IH" [OF True r [symmetric] d] "1.prems"
      by (cases "elements = []") simp_all
    finally show ?thesis
      by (simp add: candidates_from_step [OF True] r m element_loop_foldl)
  qed
qed

lemma rule_loop_offer:
  "queries_ok ruleSet doc \<Longrightarrow>
   rule_loop ruleSet doc 0 (0, None) = Inr (foldl offer (0, None) (candidates ruleSet doc))"
  by (simp add: rule_loop_candidates candidates_def)

lemma foldl_offer_le:
  "\<forall>c \<in> set cs. fst c \<le> fst st \<Longrightarrow> foldl offer st cs = st"
  by (induction cs arbitrary: st) (auto simp: offer_def)

lemma fst_foldl_offer_less:
  "fst st < m \<Longrightarrow> \<forall>d \<in> set cs. fst d < m \<Longrightarrow> fst (foldl offer st cs) < m"
  by (induction cs arbitrary: st) (auto simp: offer_def)

lemma foldl_offer_prefix:
  assumes "fst st < fst c" and "\<forall>d \<in> set pre. fst d < fst c"
  shows "foldl offer st (pre @ c # post) = foldl offer c post"
proof -
  have "fst (foldl offer st pre) < fst c"
    using assms by (rule fst_foldl_offer_less)
  then have "offer (foldl offer st pre) c = c"
    by (simp add: offer_def)
  then show ?thesis
    by simp
qed

lemma foldl_offer_first_max:
  assumes "fst st < fst c" and "\<forall>d \<in> set pre. fst d < fst c"
    and "\<forall>d \<in> set post. fst d \<le> fst c"
  shows "foldl offer st (pre @ c # post) = c"
  using foldl_offer_prefix [OF assms(1,2)] assms(3) by (simp add: foldl_offer_le)

section \<open>Properties of the rule engine\<close>

text \<open>
  C1. When the handler of an element whose score beats \<open>maxScore\<close> returns
  \<^verbatim>\<open>null\<close>, the iteration goes on, without error, from the state \<open>(score, None)\<close>: no value
  is recorded and \<open>maxScore\<close> is the element's score. If no later candidate has a
  larger score, the iteration ends in that state, whatever values the later candidates
  have, and a rule set without default value then returns \<^verbatim>\<open>undefined\<close>.
\<close>

theorem null_extraction_claims_slot:
  assumes "queries_ok ruleSet doc"
    and "candidates ruleSet doc = pre @ (score, None) # post"
    and "0 < score" and "\<forall>d \<in> set pre. fst d < score"
  shows "rule_loop ruleSet doc 0 (0, None) = Inr (foldl offer (score, None) post)
    \<and> ((\<forall>d \<in> set post. fst d \<le> score) \<longrightarrow>
         rule_loop ruleSet doc 0 (0, None) = Inr (score, None)
         \<and> (defaultValue ruleSet = None \<longrightarrow> buildRuleSet ruleSet doc context = Inr None))"
proof -
  have run: "rule_loop ruleSet doc 0 (0, None) = Inr (foldl offer (score, None) post)"
    using assms foldl_offer_prefix [of "(0, None)" "(score, None)" pre post]
    by (simp add: rule_loop_offer)
  have "buildRuleSet ruleSet doc context = Inr None"
    if "rule_loop ruleSet doc 0 (0, None) = Inr (score, None)" and "defaultValue ruleSet = None"
    using that by (simp add: buildRuleSet_def)
  with run show ?thesis
    by (simp add: foldl_offer_le)
qed

theorem null_extraction_claims_slot_witness:
  "queries_ok description_ruleSet description_doc
   \<and> candidates description_ruleSet description_doc = [] @ (2, None) # [(1, Some ''Hello'')]
   \<and> rule_loop description_ruleSet description_doc 0 (0, None) = Inr (2, None)
   \<and> buildRuleSet description_ruleSet description_doc \<lparr>url = ''https://a.com/x/y''\<rparr> = Inr None"
proof -
  have ok: "queries_ok description_ruleSet description_doc"
    by code_simp
  have cs: "candidates description_ruleSet description_doc = [] @ (2, None) # [(1, Some ''Hello'')]"
    by code_simp
  have dv: "defaultValue description_ruleSet = None"
    by (simp add: description_ruleSet_def)
  show ?thesis
    using null_extraction_claims_slot [OF ok cs, of "\<lparr>url = ''https://a.com/x/y''\<rparr>"] ok cs dv
    by (simp add: offer_def)
qed

text \<open>
  C2, as the code has it. The scorers run in declared order, each on the score that
  the scorers before it left. A scorer that returns a number other than 0 replaces the
  score by it; a scorer that returns 0 or nothing leaves the score as it is. The score
  the first scorer receives is the base score of the rule.
\<close>

theorem scorer_loop_in_order:
  "scorer_loop [] element score = score
   \<and> scorer_loop (ss @ [scorer]) element score =
       (let current = scorer_loop ss element score
        in case scorer element current of
             None \<Rightarrow> current
           | Some newScore \<Rightarrow> if newScore = 0 then current else newScore)
   \<and> element_score ruleSet currRule element =
       scorer_loop (case scorers ruleSet of None \<Rightarrow> [] | Some ss \<Rightarrow> ss) element
         (base_score ruleSet currRule)"
proof -
  have "scorer_loop (ss @ [scorer]) element score =
       (let current = scorer_loop ss element score
        in case scorer element current of
             None \<Rightarrow> current
           | Some newScore \<Rightarrow> if newScore = 0 then current else newScore)"
    by (induction ss arbitrary: score) (simp_all add: Let_def split: option.splits)
  then show ?thesis
    by (simp add: element_score_def split: option.splits)
qed

theorem scorer_zero_counterexample:
  "scorer_loop [zero_scorer] icon_16 5 = 5 \<and> scorer_loop [zero_scorer] icon_16 5 \<noteq> 0"
  by (simp add: zero_scorer_def)

lemma foldl_offer_max_value:
  assumes "fst st < m" and "(m, v) \<in> set cs" and "\<forall>c \<in> set cs. fst c < m \<or> c = (m, v)"
  shows "foldl offer st cs = (m, v)"
proof -
  from split_list_first [OF assms(2)]
  obtain pre post where cs: "cs = pre @ (m, v) # post" and first: "(m, v) \<notin> set pre"
    by blast
  have "\<forall>d \<in> set pre. fst d < fst (m, v)"
    using assms(3) first cs by auto
  moreover have "\<forall>d \<in> set post. fst d \<le> fst (m, v)"
  proof
    fix d assume "d \<in> set post"
    then have "fst d < m \<or> d = (m, v)"
      using assms(3) cs by simp
    then show "fst d \<le> fst (m, v)"
      by auto
  qed
  moreover have "fst st < fst (m, v)"
    using assms(1) by simp
  ultimately show ?thesis
    unfolding cs by (rule foldl_offer_first_max [rotated])
qed

lemma in_candidates:
  "c \<in> set (candidates ruleSet doc) \<longleftrightarrow>
     (\<exists>i < length (rules ruleSet). \<exists>element \<in> set (matched doc (fst (rules ruleSet ! i))).
        c = (element_score ruleSet i element, snd (rules ruleSet ! i) element))"
  by (auto simp: candidates_def candidates_from_def)

lemma in_candidates_from:
  "c \<in> set (candidates_from ruleSet doc k) \<longleftrightarrow>
     (\<exists>i. k \<le> i \<and> i < length (rules ruleSet) \<and>
        (\<exists>element \<in> set (matched doc (fst (rules ruleSet ! i))).
           c = (element_score ruleSet i element, snd (rules ruleSet ! i) element)))"
  by (auto simp: candidates_from_def)

lemma candidates_from_skip:
  assumes "i \<le> length (rules ruleSet)"
    and "\<forall>j < i. matched doc (fst (rules ruleSet ! j)) = []"
  shows "candidates_from ruleSet doc 0 = candidates_from ruleSet doc i"
  using assms
proof (induction i)
  case 0
  show ?case by simp
next
  case (Suc i)
  then have "candidates_from ruleSet doc 0 = candidates_from ruleSet doc i"
    by simp
  also have "\<dots> = candidates_from ruleSet doc (Suc i)"
    using Suc.prems by (simp add: candidates_from_step)
  finally show ?case .
qed

lemma element_score_scorer_loop:
  "element_score ruleSet k element =
     scorer_loop (case scorers ruleSet of None \<Rightarrow> [] | Some ss \<Rightarrow> ss) element
       (int (length (rules ruleSet)) - int k)"
  by (simp add: element_score_def base_score_def split: option.splits)

text \<open>
  C3. With \<open>n\<close> rules, every element that the rule at index \<open>i\<close> matches enters the
  scorers with the score \<open>n - i\<close>: the iteration over the rules is the pass over the
  matched elements of each index \<open>k\<close> with the scorers started at \<open>n - k\<close>, and one
  step on an element of rule \<open>i\<close> compares the scorers' result from \<open>n - i\<close> with
  \<open>maxScore\<close>. Without scorers, when the rule at index \<open>i\<close> is the first one that
  matches anything, the iteration ends with the score \<open>n - i\<close> and the value of that
  rule's first element. A rule declared earlier gives a strictly larger base score,
  and the last rule gives 1.
\<close>

theorem base_score_by_index:
  assumes "queries_ok ruleSet doc" and "i < length (rules ruleSet)"
  shows "rule_loop ruleSet doc 0 (0, None) =
      Inr (foldl offer (0, None)
        (concat (map (\<lambda>k. map (\<lambda>element.
             (scorer_loop (case scorers ruleSet of None \<Rightarrow> [] | Some ss \<Rightarrow> ss) element
                (int (length (rules ruleSet)) - int k),
              snd (rules ruleSet ! k) element))
           (matched doc (fst (rules ruleSet ! k))))
         [0 ..< length (rules ruleSet)])))
    \<and> element_loop ruleSet i handler [element] (maxScore, maxValue) =
        (let score = scorer_loop (case scorers ruleSet of None \<Rightarrow> [] | Some ss \<Rightarrow> ss) element
                       (int (length (rules ruleSet)) - int i)
         in if score > maxScore then (score, handler element) else (maxScore, maxValue))
    \<and> (scorers ruleSet = None
        \<and> (\<forall>j < i. matched doc (fst (rules ruleSet ! j)) = [])
        \<and> matched doc (fst (rules ruleSet ! i)) = element # rest
       \<longrightarrow> rule_loop ruleSet doc 0 (0, None) =
             Inr (int (length (rules ruleSet)) - int i, snd (rules ruleSet ! i) element))
    \<and> base_score ruleSet i = int (length (rules ruleSet)) - int i
    \<and> (\<forall>j < i. base_score ruleSet i < base_score ruleSet j)
    \<and> base_score ruleSet (length (rules ruleSet) - 1) = 1
    \<and> 1 \<le> base_score ruleSet i"
proof -
  let ?n = "int (length (rules ruleSet))"
  have whole: "rule_loop ruleSet doc 0 (0, None) =
      Inr (foldl offer (0, None)
        (concat (map (\<lambda>k. map (\<lambda>element.
             (scorer_loop (case scorers ruleSet of None \<Rightarrow> [] | Some ss \<Rightarrow> ss) element
                (?n - int k),
              snd (rules ruleSet ! k) element))
           (matched doc (fst (rules ruleSet ! k))))
         [0 ..< length (rules ruleSet)])))"
    using rule_loop_offer [OF assms(1)]
    by (simp add: candidates_def candidates_from_def element_score_scorer_loop)
  have one: "element_loop ruleSet i handler [element] (maxScore, maxValue) =
        (let score = scorer_loop (case scorers ruleSet of None \<Rightarrow> [] | Some ss \<Rightarrow> ss) element
                       (?n - int i)
         in if score > maxScore then (score, handler element) else (maxScore, maxValue))"
    by (simp add: element_score_scorer_loop Let_def)
  have first: "rule_loop ruleSet doc 0 (0, None) = Inr (?n - int i, snd (rules ruleSet ! i) element)"
    if none: "scorers ruleSet = None"
      and skip: "\<forall>j < i. matched doc (fst (rules ruleSet ! j)) = []"
      and hit: "matched doc (fst (rules ruleSet ! i)) = element # rest"
  proof -
    have score: "element_score ruleSet k e = ?n - int k" for k e
      by (simp add: element_score_scorer_loop none)
    let ?c = "(?n - int i, snd (rules ruleSet ! i) element)"
    let ?post = "map (\<lambda>e. (element_score ruleSet i e, snd (rules ruleSet ! i) e)) rest
                   @ candidates_from ruleSet doc (Suc i)"
    have "candidates ruleSet doc = candidates_from ruleSet doc i"
      unfolding candidates_def using assms(2) skip by (intro candidates_from_skip) simp_all
    also have "\<dots> = [] @ ?c # ?post"
      by (simp add: candidates_from_step [OF assms(2)] hit score)
    finally have cs: "candidates ruleSet doc = [] @ ?c # ?post" .
    have "\<forall>d \<in> set ?post. fst d \<le> fst ?c"
      by (auto simp: score in_candidates_from)
    moreover have "fst (0::int, None::string option) < fst ?c"
      using assms(2) by simp
    ultimately have "foldl offer (0, None) ([] @ ?c # ?post) = ?c"
      by (intro foldl_offer_first_max) simp_all
    then show ?thesis
      by (simp add: rule_loop_offer [OF assms(1)] cs)
  qed
  show ?thesis
    using whole one first assms(2) by (auto simp: base_score_def)
qed

theorem base_score_by_index_witness:
  "queries_ok title_ruleSet title_only_doc
   \<and> (4::nat) < length (rules title_ruleSet)
   \<and> scorers title_ruleSet = None
   \<and> list_all (\<lambda>j. matched title_only_doc (fst (rules title_ruleSet ! j)) = []) [0, 1, 2, 3]
   \<and> matched title_only_doc (fst (rules title_ruleSet ! 4)) = title_element # []
   \<and> rule_loop title_ruleSet title_only_doc 0 (0, None) = Inr (1, Some ''Bar'')
   \<and> base_score title_ruleSet 4 = 1
   \<and> base_score title_ruleSet 0 = 5"
proof -
  have ok: "queries_ok title_ruleSet title_only_doc"
    by code_simp
  have lt: "(4::nat) < length (rules title_ruleSet)"
    by (simp add: title_ruleSet_def)
  have n: "length (rules title_ruleSet) = 5"
    by (simp add: title_ruleSet_def)
  have sc: "scorers title_ruleSet = None"
    by (simp add: title_ruleSet_def)
  have skip4: "list_all (\<lambda>j. matched title_only_doc (fst (rules title_ruleSet ! j)) = []) [0, 1, 2, 3]"
    by (simp add: title_ruleSet_def title_only_doc_def matched_def)
  have skip: "\<forall>j < 4. matched title_only_doc (fst (rules title_ruleSet ! j)) = []"
  proof (intro allI impI)
    fix j :: nat assume "j < 4"
    then have "j \<in> set [0, 1, 2, 3]" by auto
    with skip4 show "matched title_only_doc (fst (rules title_ruleSet ! j)) = []"
      by (simp only: list_all_iff)
  qed
  have hit: "matched title_only_doc (fst (rules title_ruleSet ! 4)) = title_element # []"
    by (simp add: title_ruleSet_def title_only_doc_def matched_def)
  have h: "snd (rules title_ruleSet ! 4) title_element = Some ''Bar''"
    by (simp add: title_ruleSet_def title_element_def)
  have "rule_loop title_ruleSet title_only_doc 0 (0, None) =
          Inr (int (length (rules title_ruleSet)) - int 4,
               snd (rules title_ruleSet ! 4) title_element)"
    using base_score_by_index [OF ok lt, where element = title_element and rest = "[]",
        THEN conjunct2, THEN conjunct2, THEN conjunct1] sc skip hit
    by blast
  then show ?thesis
    using ok lt n sc skip4 hit h by (simp add: base_score_def)
qed

text \<open>
  C4. One element replaces the incumbent exactly when its score is strictly greater than
  \<open>maxScore\<close>; with an equal or smaller score the state stays as it is. So the iteration
  ends with the first candidate of maximal score: the one whose score is positive,
  strictly greater than every score before it and at least every score after it.
\<close>

theorem first_maximal_candidate_wins:
  assumes "queries_ok ruleSet doc"
    and "candidates ruleSet doc = pre @ c # post"
    and "0 < fst c" and "\<forall>d \<in> set pre. fst d < fst c" and "\<forall>d \<in> set post. fst d \<le> fst c"
  shows "rule_loop ruleSet doc 0 (0, None) = Inr c
    \<and> element_loop ruleSet currRule handler [element] (maxScore, maxValue) =
        (if maxScore < element_score ruleSet currRule element
         then (element_score ruleSet currRule element, handler element)
         else (maxScore, maxValue))"
proof -
  have "foldl offer (0, None) (pre @ c # post) = c"
    using assms(3-5) by (intro foldl_offer_first_max) simp_all
  then show ?thesis
    using assms(1,2) by (simp add: rule_loop_offer Let_def)
qed

theorem first_maximal_candidate_wins_witness:
  "queries_ok title_ruleSet title_doc
   \<and> candidates title_ruleSet title_doc = [] @ (5, Some ''Foo'') # [(5, Some ''Baz''), (1, Some ''Bar'')]
   \<and> rule_loop title_ruleSet title_doc 0 (0, None) = Inr (5, Some ''Foo'')"
proof -
  have ok: "queries_ok title_ruleSet title_doc"
    by code_simp
  have cs: "candidates title_ruleSet title_doc =
              [] @ (5, Some ''Foo'') # [(5, Some ''Baz''), (1, Some ''Bar'')]"
    by code_simp
  show ?thesis
    using first_maximal_candidate_wins [OF ok cs] ok cs by simp
qed

text \<open>
  C5. For the icon rule set: when every element that the icon rules match is one of two
  elements with \<^verbatim>\<open>sizes="16x16"\<close> and \<^verbatim>\<open>sizes="32x32"\<close>, and some icon rule matches
  the second, the iteration ends with score 32 and the \<^verbatim>\<open>href\<close> of the second, whichever
  rules match the two and in whichever order the document lists them.
\<close>

theorem icon_larger_size_wins:
  assumes "getAttribute e16 ''sizes'' = Some ''16x16''"
    and "getAttribute e32 ''sizes'' = Some ''32x32''"
    and "\<forall>r \<in> set (rules (icon_ruleSet U)). \<exists>es. doc (fst r) = Inr es \<and> set es \<subseteq> {e16, e32}"
    and "\<exists>r \<in> set (rules (icon_ruleSet U)). e32 \<in> set (matched doc (fst r))"
  shows "rule_loop (icon_ruleSet U) doc 0 (0, None) = Inr (32, getAttribute e32 ''href'')"
proof -
  let ?rs = "icon_ruleSet U"
  have ok: "queries_ok ?rs doc"
    using assms(3) by (auto simp: queries_ok_def list_all_iff)
  have handler: "snd r = (\<lambda>element. getAttribute element ''href'')" if "r \<in> set (rules ?rs)" for r
    using that by (auto simp: icon_ruleSet_def)
  have s16: "element_score ?rs i e16 = 16" for i
    by (simp add: element_score_def icon_ruleSet_def icon_scorer_def assms(1)
        is_digit_def Number_def)
  have s32: "element_score ?rs i e32 = 32" for i
    by (simp add: element_score_def icon_ruleSet_def icon_scorer_def assms(2)
        is_digit_def Number_def)
  have all: "fst c < 32 \<or> c = (32, getAttribute e32 ''href'')" if "c \<in> set (candidates ?rs doc)" for c
  proof -
    from that obtain i element where i: "i < length (rules ?rs)"
      and e: "element \<in> set (matched doc (fst (rules ?rs ! i)))"
      and c: "c = (element_score ?rs i element, snd (rules ?rs ! i) element)"
      by (auto simp: in_candidates)
    from i have mem: "rules ?rs ! i \<in> set (rules ?rs)"
      by simp
    from assms(3) mem obtain es where es: "doc (fst (rules ?rs ! i)) = Inr es"
      and sub: "set es \<subseteq> {e16, e32}"
      by blast
    from e es have "element \<in> set es"
      by (simp add: matched_def)
    with sub have "element = e16 \<or> element = e32"
      by auto
    then show ?thesis
      using c s16 s32 handler [OF mem] by auto
  qed
  have ex: "(32, getAttribute e32 ''href'') \<in> set (candidates ?rs doc)"
  proof -
    from assms(4) obtain r where r: "r \<in> set (rules ?rs)" and e: "e32 \<in> set (matched doc (fst r))"
      by blast
    from r obtain i where i: "i < length (rules ?rs)" and ri: "rules ?rs ! i = r"
      by (auto simp: in_set_conv_nth)
    have "(element_score ?rs i e32, snd (rules ?rs ! i) e32) \<in> set (candidates ?rs doc)"
      unfolding in_candidates using i e ri by blast
    then show ?thesis
      using s32 handler [OF r] ri by simp
  qed
  have "foldl offer (0, None) (candidates ?rs doc) = (32, getAttribute e32 ''href'')"
    using ex all by (intro foldl_offer_max_value) auto
  then show ?thesis
    by (simp add: rule_loop_offer [OF ok])
qed

theorem icon_larger_size_wins_witness:
  "getAttribute icon_16 ''sizes'' = Some ''16x16''
   \<and> getAttribute icon_32 ''sizes'' = Some ''32x32''
   \<and> list_all (\<lambda>r. \<exists>es. icon_doc (fst r) = Inr es \<and> set es \<subseteq> {icon_16, icon_32})
        (rules (icon_ruleSet example_URL))
   \<and> list_ex (\<lambda>r. icon_32 \<in> set (matched icon_doc (fst r))) (rules (icon_ruleSet example_URL))
   \<and> rule_loop (icon_ruleSet example_URL) icon_doc 0 (0, None) = Inr (32, Some ''large.png'')"
proof -
  have a: "getAttribute icon_16 ''sizes'' = Some ''16x16''"
    by (simp add: getAttribute_def icon_16_def)
  have b: "getAttribute icon_32 ''sizes'' = Some ''32x32''"
    by (simp add: getAttribute_def icon_32_def)
  have c: "\<forall>r \<in> set (rules (icon_ruleSet example_URL)).
             \<exists>es. icon_doc (fst r) = Inr es \<and> set es \<subseteq> {icon_16, icon_32}"
    by (simp add: icon_ruleSet_def icon_doc_def)
  have d: "\<exists>r \<in> set (rules (icon_ruleSet example_URL)). icon_32 \<in> set (matched icon_doc (fst r))"
    by (simp add: icon_ruleSet_def icon_doc_def matched_def)
  have h: "getAttribute icon_32 ''href'' = Some ''large.png''"
    by (simp add: getAttribute_def icon_32_def)
  show ?thesis
    using icon_larger_size_wins [OF a b c d] a b c d h by (simp add: list_all_iff list_ex_iff)
qed

text \<open>
  C6, as the code has it. The built-in table has nine fields, under distinct keys:
  \<^verbatim>\<open>description\<close>, \<^verbatim>\<open>icon\<close>, \<^verbatim>\<open>image\<close>, \<^verbatim>\<open>keywords\<close>, \<^verbatim>\<open>title\<close>, \<^verbatim>\<open>language\<close>,
  \<^verbatim>\<open>type\<close>, \<^verbatim>\<open>url\<close> and \<^verbatim>\<open>provider\<close>.
\<close>

theorem metadataRuleSets_nine_fields:
  "map fst (metadataRuleSets U) =
     [''description'', ''icon'', ''image'', ''keywords'', ''title'', ''language'', ''type'',
      ''url'', ''provider'']
   \<and> length (metadataRuleSets U) = 9
   \<and> distinct (map fst (metadataRuleSets U))"
  by (simp add: metadataRuleSets_def)

theorem metadataRuleSets_seven_counterexample:
  "length (metadataRuleSets example_URL) \<noteq> 7"
  by (simp add: metadataRuleSets_def)






text \<open>
  C9. The processor of the language rule set returns the part of the selected value
  before its first \<^verbatim>\<open>-\<close>, which is the whole value when it has none: \<^verbatim>\<open>en-US\<close> gives
  \<^verbatim>\<open>en\<close>.
\<close>

theorem language_processor_before_dash:
  "language_processor (Scalar language) context =
     Inr (Scalar (takeWhile (\<lambda>c. c \<noteq> CHR ''-'') language))
   \<and> processors language_ruleSet = Some [language_processor]
   \<and> language_processor (Scalar ''en-US'') context = Inr (Scalar ''en'')
   \<and> language_processor (Scalar ''fr'') context = Inr (Scalar ''fr'')"
proof -
  obtain xs where "split CHR ''-'' language = takeWhile (\<lambda>c. c \<noteq> CHR ''-'') language # xs"
    using split_head by blast
  then have "language_processor (Scalar language) context =
     Inr (Scalar (takeWhile (\<lambda>c. c \<noteq> CHR ''-'') language))"
    by (simp add: language_processor_def)
  then show ?thesis
    by (simp add: language_processor_def language_ruleSet_def)
qed

end
